theory Spec2Isabelle
  imports Complex_Main
begin

section \<open>PVwatcher: the status aggregation of the monitor IOC\<close>

text \<open>
  A shallow embedding of \<^verbatim>\<open>monitor_ioc.py\<close>: the group object built by
  \<^verbatim>\<open>create_monitor_ioc_class\<close>, the scalar extraction of the startup and subscription
  paths, the recompute \<^verbatim>\<open>_update_summary\<close>, and the putters. Python names that start
  with an underscore lose it (\<^verbatim>\<open>_update_summary\<close> is \<open>update_summary\<close>).
\<close>

subsection \<open>Python values and exceptions\<close>

text \<open>
  The payload of a feed response and the values stored in \<^verbatim>\<open>target_values\<close> are
  arbitrary Python objects. The model keeps the shapes the code distinguishes:
  \<^verbatim>\<open>None\<close>, numbers, \<^verbatim>\<open>str\<close>, and list-like sequences (which have
  \<^verbatim>\<open>__iter__\<close> and integer indexing). An \<^verbatim>\<open>int\<close> is an \<open>int\<close>. A
  \<^verbatim>\<open>float\<close> is a finite value (an exact real), one of the two infinities, or NaN;
  the code only compares floats, and a comparison involves no rounding.
\<close>

datatype pyfloat =
    Finite real
  | PosInf
  | NegInf
  | NaN

text \<open>
  \<^verbatim>\<open>a < b\<close> and \<^verbatim>\<open>a <= b\<close> on floats: every comparison with NaN is false;
  \<^verbatim>\<open>a > b\<close> is \<open>float_lt b a\<close>.
\<close>

fun float_lt :: "pyfloat \<Rightarrow> pyfloat \<Rightarrow> bool" where
  "float_lt NaN _ = False"
| "float_lt _ NaN = False"
| "float_lt (Finite x) (Finite y) = (x < y)"
| "float_lt NegInf NegInf = False"
| "float_lt NegInf _ = True"
| "float_lt _ NegInf = False"
| "float_lt PosInf _ = False"
| "float_lt _ PosInf = True"

definition float_le :: "pyfloat \<Rightarrow> pyfloat \<Rightarrow> bool" where
  "float_le a b = (a \<noteq> NaN \<and> b \<noteq> NaN \<and> \<not> float_lt b a)"

datatype pyval =
    PNone
  | PInt int
  | PFloat pyfloat
  | PStr string
  | PSeq "pyval list"

datatype error =
    TypeError
  | IndexError
  | ClientError string

text \<open>\<^verbatim>\<open>hasattr(val, '__iter__')\<close> and \<^verbatim>\<open>isinstance(val, str)\<close>.\<close>

fun has_iter :: "pyval \<Rightarrow> bool" where
  "has_iter (PStr _) = True"
| "has_iter (PSeq _) = True"
| "has_iter _ = False"

fun is_str :: "pyval \<Rightarrow> bool" where
  "is_str (PStr _) = True"
| "is_str _ = False"

text \<open>
  \<^verbatim>\<open>val[0]\<close>: the first element of a sequence, \<^verbatim>\<open>IndexError\<close> on an empty
  one, the first character of a string, \<^verbatim>\<open>TypeError\<close> on an object that is not
  subscriptable.
\<close>

fun getitem0 :: "pyval \<Rightarrow> error + pyval" where
  "getitem0 (PSeq []) = Inl IndexError"
| "getitem0 (PSeq (x # _)) = Inr x"
| "getitem0 (PStr []) = Inl IndexError"
| "getitem0 (PStr (c # _)) = Inr (PStr [c])"
| "getitem0 _ = Inl TypeError"

text \<open>
  The extraction block of \<^verbatim>\<open>master_enable_startup\<close> (lines 97 to 103) and of
  \<^verbatim>\<open>_monitor_loop\<close> (lines 138 to 144), the same text in both places:
  \<^verbatim>\<open>
  try:
      if hasattr(val, '__iter__') and not isinstance(val, str):
          v = val[0]
      else:
          v = val
  except Exception:
      v = val
  \<close>
\<close>

definition extract_scalar :: "pyval \<Rightarrow> pyval" where
  "extract_scalar val =
     (if has_iter val \<and> \<not> is_str val
      then (case getitem0 val of Inl _ \<Rightarrow> val | Inr v \<Rightarrow> v)
      else val)"

text \<open>
  \<^verbatim>\<open>current_value < low_limit\<close> and \<^verbatim>\<open>current_value > high_limit\<close>, the limit
  being the \<^verbatim>\<open>float\<close> of a DOUBLE property: numbers compare by value (an
  \<^verbatim>\<open>int\<close> by its exact value), a comparison with NaN is false without raising,
  every other object raises \<^verbatim>\<open>TypeError\<close>.
\<close>

fun py_lt :: "pyval \<Rightarrow> pyfloat \<Rightarrow> error + bool" where
  "py_lt (PInt i) r = Inr (float_lt (Finite (real_of_int i)) r)"
| "py_lt (PFloat x) r = Inr (float_lt x r)"
| "py_lt _ r = Inl TypeError"

fun py_gt :: "pyval \<Rightarrow> pyfloat \<Rightarrow> error + bool" where
  "py_gt (PInt i) r = Inr (float_lt r (Finite (real_of_int i)))"
| "py_gt (PFloat x) r = Inr (float_lt r x)"
| "py_gt _ r = Inl TypeError"

subsection \<open>The group object\<close>

text \<open>
  The three properties of a target are created together (lines 216 to 228) under the
  attribute names \<^verbatim>\<open>{suffix}_enable\<close>, \<^verbatim>\<open>{suffix}_low\<close>,
  \<^verbatim>\<open>{suffix}_high\<close>; the model keeps their values in one record per suffix.
\<close>

record target_props =
  enable :: int
  low :: pyfloat
  high :: pyfloat

datatype log_entry =
    InfoMasterEnableChanged int
  | InfoStartingClient
  | InfoConnecting "string list"
  | ErrorFailedGetPVs error
  | InfoSubscribing string
  | ErrorFailedInitialRead string error
  | InfoStartingMonitorLoop string
  | ErrorMonitorLoopFailed string error
  | InfoMasterDisabled
  | InfoAlarm string pyval pyfloat pyfloat
  | InfoUpdatingStatus int
  | InfoGenericPutter string pyval

text \<open>
  A handle returned by the feed client: its name and what \<^verbatim>\<open>await pv.read()\<close>
  gives, the \<^verbatim>\<open>data\<close> of the response or the exception raised. The client is
  outside the repository, so the handles are an input of the model.
\<close>

record pv_handle =
  pv_name :: string
  pv_read :: "error + pyval"

text \<open>
  The state of the group: the class attribute \<^verbatim>\<open>target_pvs_list\<close>, the
  per-target properties by attribute suffix, the values of the two static properties,
  the instance attributes of \<^verbatim>\<open>__init__\<close>, the \<^verbatim>\<open>check_after\<close> tasks handed to
  the event loop and not yet run (each with its delay in seconds), the values written
  through \<^verbatim>\<open>summary_status.write\<close> (oldest first) and the log.
\<close>

record ioc =
  target_pvs_list :: "string list"
  props :: "string \<rightharpoonup> target_props"
  master_enable :: int
  summary_status :: int
  target_values :: "string \<rightharpoonup> pyval"
  client_context :: bool
  monitored_pvs :: "pv_handle list"
  monitor_tasks :: "string list"
  scheduled :: "real list"
  published :: "int list"
  logger :: "log_entry list"

definition logger_write :: "log_entry \<Rightarrow> ioc \<Rightarrow> ioc" where
  "logger_write e s = s\<lparr>logger := logger s @ [e]\<rparr>"

text \<open>\<^verbatim>\<open>await self.summary_status.write(v)\<close>: the value is stored and published.\<close>

definition summary_status_write :: "int \<Rightarrow> ioc \<Rightarrow> ioc" where
  "summary_status_write v s = s\<lparr>summary_status := v, published := published s @ [v]\<rparr>"

text \<open>\<^verbatim>\<open>target.replace(':', '_')\<close>.\<close>

definition attr_suffix :: "string \<Rightarrow> string" where
  "attr_suffix target = map (\<lambda>c. if c = CHR '':'' then CHR ''_'' else c) target"

text \<open>
  \<^verbatim>\<open>self.target_values.get(target)\<close>: \<^verbatim>\<open>None\<close> for a missing key and for a key
  that holds \<^verbatim>\<open>None\<close>.
\<close>

definition current_value :: "ioc \<Rightarrow> string \<Rightarrow> pyval" where
  "current_value s target = (case target_values s target of None \<Rightarrow> PNone | Some v \<Rightarrow> v)"

text \<open>
  The class construction and \<^verbatim>\<open>__init__\<close>: every target gets ENABLE 1, LOW 0.0,
  HIGH 100.0 under its suffix (a later target with the same suffix replaces the entry of
  an earlier one), both static properties start at 1, every target value at
  \<^verbatim>\<open>None\<close>.
\<close>

fun make_props :: "string list \<Rightarrow> (string \<rightharpoonup> target_props) \<Rightarrow> (string \<rightharpoonup> target_props)" where
  "make_props [] d = d"
| "make_props (t # ts) d =
     make_props ts (d(attr_suffix t \<mapsto> \<lparr>enable = 1, low = Finite 0, high = Finite 100\<rparr>))"

definition create_monitor_ioc :: "string list \<Rightarrow> ioc" where
  "create_monitor_ioc target_pvs =
     \<lparr>target_pvs_list = target_pvs,
      props = make_props target_pvs Map.empty,
      master_enable = 1,
      summary_status = 1,
      target_values = (\<lambda>t. if t \<in> set target_pvs then Some PNone else None),
      client_context = False,
      monitored_pvs = [],
      monitor_tasks = [],
      scheduled = [],
      published = [],
      logger = []\<rparr>"

subsection \<open>The recompute\<close>

text \<open>
  The loop of \<^verbatim>\<open>_update_summary\<close> (lines 168 to 188) over the remaining targets.
  The result is \<open>None\<close> when \<^verbatim>\<open>all_ok\<close> stays true, the alarm line of the first
  violating target when the loop breaks, and the exception when a comparison raises.
  A target without an \<^verbatim>\<open>_enable\<close> attribute is skipped (\<^verbatim>\<open>continue\<close>);
  \<^verbatim>\<open>is_enabled and current_value is not None\<close> guards the comparisons, and
  \<^verbatim>\<open>or\<close> evaluates the second comparison only when the first is false.
\<close>

fun check_targets :: "ioc \<Rightarrow> string list \<Rightarrow> error + log_entry option" where
  "check_targets s [] = Inr None"
| "check_targets s (target # rest) =
     (case props s (attr_suffix target) of
        None \<Rightarrow> check_targets s rest
      | Some p \<Rightarrow>
          (let v = current_value s target in
           if enable p \<noteq> 0 \<and> v \<noteq> PNone then
             (case py_lt v (low p) of
                Inl e \<Rightarrow> Inl e
              | Inr True \<Rightarrow> Inr (Some (InfoAlarm target v (low p) (high p)))
              | Inr False \<Rightarrow>
                  (case py_gt v (high p) of
                     Inl e \<Rightarrow> Inl e
                   | Inr True \<Rightarrow> Inr (Some (InfoAlarm target v (low p) (high p)))
                   | Inr False \<Rightarrow> check_targets s rest))
           else check_targets s rest))"

text \<open>
  \<^verbatim>\<open>_update_summary(self, master_enable_override=None)\<close>. With the master switch
  at 0 the status is set to 1 when it is not 1 already, and the function returns before
  the loop. Otherwise the loop runs, and the status is written when it differs from the
  new one. An exception of the loop leaves the state as it was.
\<close>

definition update_summary :: "ioc \<Rightarrow> int option \<Rightarrow> error + ioc" where
  "update_summary s master_enable_override =
     (let master = (case master_enable_override of
                      None \<Rightarrow> master_enable s
                    | Some v \<Rightarrow> v) in
      if master = 0 then
        (if summary_status s \<noteq> 1
         then Inr (summary_status_write 1 (logger_write InfoMasterDisabled s))
         else Inr s)
      else
        (case check_targets s (target_pvs_list s) of
           Inl e \<Rightarrow> Inl e
         | Inr alarm \<Rightarrow>
             (let s1 = (case alarm of None \<Rightarrow> s | Some line \<Rightarrow> logger_write line s);
                  new_status = (if alarm = None then 1 else 0) in
              if summary_status s1 \<noteq> new_status
              then Inr (summary_status_write new_status
                          (logger_write (InfoUpdatingStatus new_status) s1))
              else Inr s1)))"

subsection \<open>The putter of the master switch\<close>

text \<open>
  \<^verbatim>\<open>master_enable_putter\<close>: the recompute runs with the written value as
  \<^verbatim>\<open>master_enable_override\<close>, while \<^verbatim>\<open>self.master_enable.value\<close> still holds the old
  value; the putter returns the value for the framework to store. The log line comes
  first, so it stays when the recompute raises.
\<close>

definition master_enable_putter :: "ioc \<Rightarrow> int \<Rightarrow> (error + int) \<times> ioc" where
  "master_enable_putter s v =
     (let s1 = logger_write (InfoMasterEnableChanged v) s in
      case update_summary s1 (Some v) of
        Inl e \<Rightarrow> (Inl e, s1)
      | Inr s2 \<Rightarrow> (Inr v, s2))"

subsection \<open>Startup\<close>

text \<open>
  One round of the loop of \<^verbatim>\<open>master_enable_startup\<close> (lines 88 to 115): the initial
  read inside \<^verbatim>\<open>try\<close>, the monitoring task, the recompute. The recompute is outside
  the \<^verbatim>\<open>try\<close>, so its exception leaves the function; the first component of the
  result is that exception.
\<close>

definition startup_target :: "ioc \<Rightarrow> pv_handle \<Rightarrow> error option \<times> ioc" where
  "startup_target s pv =
     (let s1 = logger_write (InfoSubscribing (pv_name pv)) s;
          s2 = (case pv_read pv of
                  Inl e \<Rightarrow> logger_write (ErrorFailedInitialRead (pv_name pv) e) s1
                | Inr val \<Rightarrow>
                    s1\<lparr>target_values := (target_values s1)(pv_name pv \<mapsto> extract_scalar val)\<rparr>);
          s3 = s2\<lparr>monitor_tasks := monitor_tasks s2 @ [pv_name pv]\<rparr>
      in case update_summary s3 None of
           Inl e \<Rightarrow> (Some e, s3)
         | Inr s4 \<Rightarrow> (None, s4))"

fun startup_loop :: "ioc \<Rightarrow> pv_handle list \<Rightarrow> error option \<times> ioc" where
  "startup_loop s [] = (None, s)"
| "startup_loop s (pv # pvs) =
     (case startup_target s pv of
        (Some e, s') \<Rightarrow> (Some e, s')
      | (None, s') \<Rightarrow> startup_loop s' pvs)"

text \<open>
  \<^verbatim>\<open>master_enable_startup\<close>. The second argument is what
  \<^verbatim>\<open>client_context.get_pvs\<close> gives for the target names: the handles, or the
  exception, which is logged before the function returns.
\<close>

definition master_enable_startup :: "ioc \<Rightarrow> error + pv_handle list \<Rightarrow> error option \<times> ioc" where
  "master_enable_startup s get_pvs =
     (let s1 = logger_write InfoStartingClient s;
          s2 = s1\<lparr>client_context := True\<rparr>;
          s3 = logger_write (InfoConnecting (target_pvs_list s2)) s2
      in case get_pvs of
           Inl e \<Rightarrow> (None, logger_write (ErrorFailedGetPVs e) s3)
         | Inr pvs \<Rightarrow> startup_loop (s3\<lparr>monitored_pvs := pvs\<rparr>) pvs)"

subsection \<open>The subscription loop\<close>

text \<open>
  The body of the \<^verbatim>\<open>async for\<close> of \<^verbatim>\<open>_monitor_loop\<close> (lines 137 to 148) for one
  response: extraction, store, recompute.
\<close>

definition monitor_event :: "ioc \<Rightarrow> string \<Rightarrow> pyval \<Rightarrow> error option \<times> ioc" where
  "monitor_event s name val =
     (let s1 = s\<lparr>target_values := (target_values s)(name \<mapsto> extract_scalar val)\<rparr>
      in case update_summary s1 None of
           Inl e \<Rightarrow> (Some e, s1)
         | Inr s2 \<Rightarrow> (None, s2))"

text \<open>
  The loop over the responses of one subscription, \<open>Inl\<close> standing for an exception
  raised by the subscription itself. The \<^verbatim>\<open>try\<close> around the loop logs any exception
  and the loop ends; the boolean says whether the loop is still waiting for responses.
\<close>

fun monitor_responses :: "ioc \<Rightarrow> string \<Rightarrow> (error + pyval) list \<Rightarrow> bool \<times> ioc" where
  "monitor_responses s name [] = (True, s)"
| "monitor_responses s name (Inl e # rest) =
     (False, logger_write (ErrorMonitorLoopFailed name e) s)"
| "monitor_responses s name (Inr val # rest) =
     (case monitor_event s name val of
        (Some e, s') \<Rightarrow> (False, logger_write (ErrorMonitorLoopFailed name e) s')
      | (None, s') \<Rightarrow> monitor_responses s' name rest)"

definition monitor_loop :: "ioc \<Rightarrow> string \<Rightarrow> (error + pyval) list \<Rightarrow> bool \<times> ioc" where
  "monitor_loop s name responses =
     monitor_responses (logger_write (InfoStartingMonitorLoop name) s) name responses"

subsection \<open>The putter of the per-target properties\<close>

text \<open>
  \<^verbatim>\<open>generic_putter\<close>: every call hands one new \<^verbatim>\<open>check_after\<close> task to the event
  loop with \<^verbatim>\<open>asyncio.ensure_future\<close> and returns the value. The task sleeps 0.01
  seconds and calls \<^verbatim>\<open>_update_summary()\<close>.
\<close>

definition check_after_delay :: real where
  "check_after_delay = 1 / 100"

definition generic_putter :: "ioc \<Rightarrow> string \<Rightarrow> pyval \<Rightarrow> pyval \<times> ioc" where
  "generic_putter s instance_name v =
     (v, (logger_write (InfoGenericPutter instance_name v) s)
           \<lparr>scheduled := scheduled s @ [check_after_delay]\<rparr>)"

definition check_after :: "ioc \<Rightarrow> error + ioc" where
  "check_after s = update_summary s None"

text \<open>
  The event loop runs every pending task; an exception inside a task ends that task
  only. The first component counts the calls of \<^verbatim>\<open>_update_summary\<close>.
\<close>

fun run_tasks :: "real list \<Rightarrow> ioc \<Rightarrow> nat \<times> ioc" where
  "run_tasks [] s = (0, s)"
| "run_tasks (d # ds) s =
     (let s1 = (case check_after s of Inl e \<Rightarrow> s | Inr s' \<Rightarrow> s');
          r = run_tasks ds s1
      in (Suc (fst r), snd r))"

definition run_scheduled :: "ioc \<Rightarrow> nat \<times> ioc" where
  "run_scheduled s = run_tasks (scheduled s) (s\<lparr>scheduled := []\<rparr>)"

subsection \<open>Notions used to state the properties\<close>

text \<open>
  The inclusive bounds check \<^verbatim>\<open>low <= value <= high\<close> on a stored value, and the
  test the code makes instead: neither \<^verbatim>\<open>value < low\<close> nor
  \<^verbatim>\<open>value > high\<close>.
\<close>

fun within_bounds :: "pyval \<Rightarrow> pyfloat \<Rightarrow> pyfloat \<Rightarrow> bool" where
  "within_bounds (PInt i) lo hi =
     (float_le lo (Finite (real_of_int i)) \<and> float_le (Finite (real_of_int i)) hi)"
| "within_bounds (PFloat x) lo hi = (float_le lo x \<and> float_le x hi)"
| "within_bounds _ lo hi = False"

fun no_alarm :: "pyval \<Rightarrow> pyfloat \<Rightarrow> pyfloat \<Rightarrow> bool" where
  "no_alarm (PInt i) lo hi =
     (\<not> float_lt (Finite (real_of_int i)) lo \<and> \<not> float_lt hi (Finite (real_of_int i)))"
| "no_alarm (PFloat x) lo hi = (\<not> float_lt x lo \<and> \<not> float_lt hi x)"
| "no_alarm _ lo hi = False"

fun is_number :: "pyval \<Rightarrow> bool" where
  "is_number (PInt _) = True"
| "is_number (PFloat _) = True"
| "is_number _ = False"


text \<open>
  A target takes part in the evaluation when its enable property exists and is not 0
  and its stored value is not \<^verbatim>\<open>None\<close>.
\<close>

definition evaluated :: "ioc \<Rightarrow> string \<Rightarrow> bool" where
  "evaluated s target =
     (case props s (attr_suffix target) of
        None \<Rightarrow> False
      | Some p \<Rightarrow> enable p \<noteq> 0 \<and> current_value s target \<noteq> PNone)"

definition target_ok :: "ioc \<Rightarrow> string \<Rightarrow> bool" where
  "target_ok s target =
     (case props s (attr_suffix target) of
        None \<Rightarrow> False
      | Some p \<Rightarrow> within_bounds (current_value s target) (low p) (high p))"

definition target_passes :: "ioc \<Rightarrow> string \<Rightarrow> bool" where
  "target_passes s target =
     (case props s (attr_suffix target) of
        None \<Rightarrow> False
      | Some p \<Rightarrow> no_alarm (current_value s target) (low p) (high p))"

text \<open>Neither the stored value of the target nor one of its bounds is NaN.\<close>

definition nan_free :: "ioc \<Rightarrow> string \<Rightarrow> bool" where
  "nan_free s target =
     (case props s (attr_suffix target) of
        None \<Rightarrow> True
      | Some p \<Rightarrow>
          current_value s target \<noteq> PFloat NaN \<and> low p \<noteq> NaN \<and> high p \<noteq> NaN)"

text \<open>Every evaluated target of the list holds a number.\<close>

definition numeric_snapshot :: "ioc \<Rightarrow> bool" where
  "numeric_snapshot s =
     (\<forall>target \<in> set (target_pvs_list s).
        evaluated s target \<longrightarrow> is_number (current_value s target))"

text \<open>The master value a recompute works with.\<close>

definition effective_master :: "ioc \<Rightarrow> int option \<Rightarrow> int" where
  "effective_master s master_enable_override =
     (case master_enable_override of None \<Rightarrow> master_enable s | Some v \<Rightarrow> v)"

text \<open>What a recompute shows to the outside: the published status, or the exception.\<close>

definition outcome :: "error + ioc \<Rightarrow> error + int" where
  "outcome r = (case r of Inl e \<Rightarrow> Inl e | Inr s \<Rightarrow> Inr (summary_status s))"

text \<open>
  The full scan of the specification: the test of one target on its own, and a pass
  over all targets without a break that counts the violating ones.
\<close>

definition violates :: "ioc \<Rightarrow> string \<Rightarrow> error + bool" where
  "violates s target =
     (case props s (attr_suffix target) of
        None \<Rightarrow> Inr False
      | Some p \<Rightarrow>
          (let v = current_value s target in
           if enable p \<noteq> 0 \<and> v \<noteq> PNone then
             (case py_lt v (low p) of
                Inl e \<Rightarrow> Inl e
              | Inr True \<Rightarrow> Inr True
              | Inr False \<Rightarrow> py_gt v (high p))
           else Inr False))"

fun full_scan :: "ioc \<Rightarrow> string list \<Rightarrow> error + nat" where
  "full_scan s [] = Inr 0"
| "full_scan s (target # rest) =
     (case violates s target of
        Inl e \<Rightarrow> Inl e
      | Inr b \<Rightarrow>
          (case full_scan s rest of
             Inl e \<Rightarrow> Inl e
           | Inr n \<Rightarrow> Inr (if b then Suc n else n)))"

definition full_scan_status :: "ioc \<Rightarrow> error + int" where
  "full_scan_status s =
     (case full_scan s (target_pvs_list s) of
        Inl e \<Rightarrow> Inl e
      | Inr n \<Rightarrow> Inr (if n = 0 then 1 else 0))"

text \<open>
  A target is disabled when its enable property is 0 (or missing); \<open>set_value\<close> is the
  store \<^verbatim>\<open>self.target_values[name] = v\<close>.
\<close>

definition disabled :: "ioc \<Rightarrow> string \<Rightarrow> bool" where
  "disabled s target =
     (case props s (attr_suffix target) of None \<Rightarrow> True | Some p \<Rightarrow> enable p = 0)"

definition set_value :: "ioc \<Rightarrow> string \<Rightarrow> pyval \<Rightarrow> ioc" where
  "set_value s target v = s\<lparr>target_values := (target_values s)(target \<mapsto> v)\<rparr>"

text \<open>A sequence of writes to per-target properties, each through \<open>generic_putter\<close>.\<close>

fun putter_writes :: "ioc \<Rightarrow> (string \<times> pyval) list \<Rightarrow> ioc" where
  "putter_writes s [] = s"
| "putter_writes s ((instance_name, v) # ws) =
     putter_writes (snd (generic_putter s instance_name v)) ws"

subsection \<open>Example states\<close>

text \<open>
  The scenarios of the specification: two targets with bounds 0 and 10. In scenario B
  the first holds 5 and the second 15; scenario C is scenario B, its alarm published,
  with the master switch at 0; scenario D is scenario B with the second target disabled.
\<close>

definition scenario_b :: ioc where
  "scenario_b =
     (create_monitor_ioc [''T1'', ''T2''])
       \<lparr>props := [''T1'' \<mapsto> \<lparr>enable = 1, low = Finite 0, high = Finite 10\<rparr>,
                  ''T2'' \<mapsto> \<lparr>enable = 1, low = Finite 0, high = Finite 10\<rparr>],
        target_values := [''T1'' \<mapsto> PInt 5, ''T2'' \<mapsto> PFloat (Finite 15)]\<rparr>"

definition scenario_c :: ioc where
  "scenario_c = scenario_b\<lparr>master_enable := 0, summary_status := 0\<rparr>"

definition scenario_d :: ioc where
  "scenario_d =
     scenario_b\<lparr>props := (props scenario_b)(''T2'' \<mapsto> \<lparr>enable = 0, low = Finite 0, high = Finite 10\<rparr>)\<rparr>"

definition scenario_two_alarms :: ioc where
  "scenario_two_alarms =
     scenario_b\<lparr>target_values := [''T1'' \<mapsto> PInt 50, ''T2'' \<mapsto> PFloat (Finite 15)]\<rparr>"


text \<open>One target whose subscription delivered NaN.\<close>

definition nan_feed :: ioc where
  "nan_feed = snd (monitor_event (create_monitor_ioc [''T1'']) ''T1'' (PSeq [PFloat NaN]))"

text \<open>One target whose subscription delivered a string.\<close>

definition string_feed :: ioc where
  "string_feed = snd (monitor_event (create_monitor_ioc [''T1'']) ''T1'' (PStr ''abc''))"


section \<open>Properties\<close>

subsection \<open>Fields left alone by the log and by the status write\<close>

lemma logger_write_fields [simp]:
  "summary_status (logger_write e s) = summary_status s"
  "master_enable (logger_write e s) = master_enable s"
  "target_pvs_list (logger_write e s) = target_pvs_list s"
  "published (logger_write e s) = published s"
  "props (logger_write e s) = props s"
  "target_values (logger_write e s) = target_values s"
  "monitor_tasks (logger_write e s) = monitor_tasks s"
  "scheduled (logger_write e s) = scheduled s"
  "logger (logger_write e s) = logger s @ [e]"
  by (simp_all add: logger_write_def)

lemma summary_status_write_fields [simp]:
  "summary_status (summary_status_write v s) = v"
  "master_enable (summary_status_write v s) = master_enable s"
  "target_pvs_list (summary_status_write v s) = target_pvs_list s"
  "published (summary_status_write v s) = published s @ [v]"
  "props (summary_status_write v s) = props s"
  "target_values (summary_status_write v s) = target_values s"
  "monitor_tasks (summary_status_write v s) = monitor_tasks s"
  "scheduled (summary_status_write v s) = scheduled s"
  "logger (summary_status_write v s) = logger s"
  by (simp_all add: summary_status_write_def)

lemma set_value_fields [simp]:
  "effective_master (set_value s T v) ov = effective_master s ov"
  "target_pvs_list (set_value s T v) = target_pvs_list s"
  "props (set_value s T v) = props s"
  "current_value (set_value s T v) T = v"
  by (simp_all add: set_value_def effective_master_def current_value_def split: option.splits)

lemma effective_master_targets [simp]:
  "effective_master (s\<lparr>target_pvs_list := ts\<rparr>) ov = effective_master s ov"
  by (simp add: effective_master_def split: option.splits)

subsection \<open>Comparisons\<close>

lemma py_lt_number: "is_number v \<Longrightarrow> \<exists>b. py_lt v r = Inr b"
  by (cases v) auto

lemma py_gt_number: "is_number v \<Longrightarrow> \<exists>b. py_gt v r = Inr b"
  by (cases v) auto

lemma py_cmp_no_alarm:
  "py_lt v lo = Inr False \<Longrightarrow> py_gt v hi = Inr False \<Longrightarrow> no_alarm v lo hi"
  by (cases v) auto

lemma py_lt_alarm: "py_lt v lo = Inr True \<Longrightarrow> \<not> no_alarm v lo hi"
  by (cases v) auto

lemma py_gt_alarm: "py_gt v hi = Inr True \<Longrightarrow> \<not> no_alarm v lo hi"
  by (cases v) auto

text \<open>Without NaN the test of the code is the inclusive bounds check.\<close>

lemma no_alarm_within:
  "v \<noteq> PFloat NaN \<Longrightarrow> lo \<noteq> NaN \<Longrightarrow> hi \<noteq> NaN \<Longrightarrow>
   no_alarm v lo hi = within_bounds v lo hi"
  by (cases v) (auto simp: float_le_def)

lemma target_passes_ok:
  "nan_free s t \<Longrightarrow> evaluated s t \<Longrightarrow> target_passes s t = target_ok s t"
  by (auto simp: nan_free_def evaluated_def target_passes_def target_ok_def no_alarm_within
      split: option.splits)

subsection \<open>The loop over the targets\<close>

lemma check_targets_ok:
  "check_targets s ts = Inr None \<Longrightarrow> \<forall>t \<in> set ts. evaluated s t \<longrightarrow> target_passes s t"
proof (induction ts)
  case Nil
  then show ?case by simp
next
  case (Cons t ts)
  then show ?case
    by (auto simp: evaluated_def target_passes_def Let_def py_cmp_no_alarm
        split: option.splits sum.splits bool.splits if_splits)
qed

lemma check_targets_alarm:
  "check_targets s ts = Inr (Some l) \<Longrightarrow>
   \<exists>t \<in> set ts. evaluated s t \<and> \<not> target_passes s t"
proof (induction ts)
  case Nil
  then show ?case by simp
next
  case (Cons t ts)
  then show ?case
    by (auto simp: evaluated_def target_passes_def Let_def py_lt_alarm py_gt_alarm
        split: option.splits sum.splits bool.splits if_splits)
qed

lemma check_targets_total:
  "\<forall>t \<in> set ts. evaluated s t \<longrightarrow> is_number (current_value s t) \<Longrightarrow>
   \<exists>a. check_targets s ts = Inr a"
proof (induction ts)
  case Nil
  then show ?case by simp
next
  case (Cons t ts)
  then obtain a where a: "check_targets s ts = Inr a" by auto
  show ?case
  proof (cases "evaluated s t")
    case False
    then show ?thesis using a
      by (auto simp: evaluated_def Let_def split: option.splits)
  next
    case True
    then have n: "is_number (current_value s t)" using Cons.prems by simp
    from True obtain p where p: "props s (attr_suffix t) = Some p" "enable p \<noteq> 0"
      "current_value s t \<noteq> PNone"
      by (auto simp: evaluated_def split: option.splits)
    from n obtain b1 where b1: "py_lt (current_value s t) (low p) = Inr b1"
      using py_lt_number by blast
    from n obtain b2 where b2: "py_gt (current_value s t) (high p) = Inr b2"
      using py_gt_number by blast
    show ?thesis using a p b1 b2
      by (cases b1; cases b2) (simp_all add: Let_def)
  qed
qed

text \<open>The loop reads the per-target properties and the stored values only.\<close>

lemma check_targets_cong:
  "props s = props s' \<Longrightarrow> target_values s = target_values s' \<Longrightarrow>
   check_targets s ts = check_targets s' ts"
  by (induction ts)
    (auto simp: current_value_def Let_def split: option.splits sum.splits bool.splits)

lemma check_targets_logger [simp]:
  "check_targets (logger_write e s) ts = check_targets s ts"
  by (rule check_targets_cong) simp_all

lemma check_targets_master [simp]:
  "check_targets (s\<lparr>master_enable := v\<rparr>) ts = check_targets s ts"
  by (rule check_targets_cong) simp_all

subsection \<open>The recompute\<close>

lemma update_summary_master_off:
  "effective_master s ov = 0 \<Longrightarrow>
   \<exists>s'. update_summary s ov = Inr s' \<and> summary_status s' = 1"
  by (auto simp: update_summary_def effective_master_def split: option.splits)

lemma update_summary_status:
  "effective_master s ov \<noteq> 0 \<Longrightarrow> update_summary s ov = Inr s' \<Longrightarrow>
   \<exists>a. check_targets s (target_pvs_list s) = Inr a \<and>
       summary_status s' = (if a = None then 1 else 0)"
  by (auto simp: update_summary_def effective_master_def Let_def
      split: option.splits sum.splits if_splits)

lemma update_summary_returns:
  "check_targets s (target_pvs_list s) = Inr a \<Longrightarrow> \<exists>s'. update_summary s ov = Inr s'"
  by (auto simp: update_summary_def Let_def split: option.splits)

lemma outcome_update_summary:
  "outcome (update_summary s ov) =
     (if effective_master s ov = 0 then Inr 1
      else (case check_targets s (target_pvs_list s) of
              Inl e \<Rightarrow> Inl e
            | Inr a \<Rightarrow> Inr (if a = None then 1 else 0)))"
  by (auto simp: update_summary_def outcome_def effective_master_def Let_def
      split: option.splits sum.splits)

lemma update_summary_frame:
  "update_summary s ov = Inr s' \<Longrightarrow>
   target_values s' = target_values s \<and> props s' = props s \<and>
   monitor_tasks s' = monitor_tasks s \<and> target_pvs_list s' = target_pvs_list s \<and>
   master_enable s' = master_enable s \<and> scheduled s' = scheduled s \<and>
   set (logger s) \<subseteq> set (logger s')"
  by (auto simp: update_summary_def Let_def split: option.splits sum.splits if_splits)

subsection \<open>The example states\<close>

lemma suffix_examples [simp]:
  "attr_suffix ''T1'' = ''T1''" "attr_suffix ''T2'' = ''T2''"
  by (simp_all add: attr_suffix_def)

lemma scenario_b_simps:
  "target_pvs_list scenario_b = [''T1'', ''T2'']"
  "master_enable scenario_b = 1"
  "summary_status scenario_b = 1"
  "published scenario_b = []"
  "props scenario_b = [''T1'' \<mapsto> \<lparr>enable = 1, low = Finite 0, high = Finite 10\<rparr>,
                       ''T2'' \<mapsto> \<lparr>enable = 1, low = Finite 0, high = Finite 10\<rparr>]"
  "target_values scenario_b = [''T1'' \<mapsto> PInt 5, ''T2'' \<mapsto> PFloat (Finite 15)]"
  by (simp_all add: scenario_b_def create_monitor_ioc_def)

lemma scenario_b_numeric: "numeric_snapshot scenario_b"
  by (simp add: numeric_snapshot_def scenario_b_simps evaluated_def current_value_def)

lemma scenario_b_master: "effective_master scenario_b None \<noteq> 0"
  by (simp add: effective_master_def scenario_b_simps)

lemma scenario_b_check:
  "check_targets scenario_b [''T1'', ''T2''] = Inr (Some (InfoAlarm ''T2'' (PFloat (Finite 15)) (Finite 0) (Finite 10)))"
  by (simp add: scenario_b_simps current_value_def)

lemma scenario_d_simps:
  "target_pvs_list scenario_d = [''T1'', ''T2'']"
  "master_enable scenario_d = 1"
  "summary_status scenario_d = 1"
  "props scenario_d = [''T1'' \<mapsto> \<lparr>enable = 1, low = Finite 0, high = Finite 10\<rparr>,
                       ''T2'' \<mapsto> \<lparr>enable = 0, low = Finite 0, high = Finite 10\<rparr>]"
  "target_values scenario_d = [''T1'' \<mapsto> PInt 5, ''T2'' \<mapsto> PFloat (Finite 15)]"
  by (simp_all add: scenario_d_def scenario_b_simps)

lemma two_alarms_simps:
  "target_pvs_list scenario_two_alarms = [''T1'', ''T2'']"
  "master_enable scenario_two_alarms = 1"
  "props scenario_two_alarms = [''T1'' \<mapsto> \<lparr>enable = 1, low = Finite 0, high = Finite 10\<rparr>,
                                ''T2'' \<mapsto> \<lparr>enable = 1, low = Finite 0, high = Finite 10\<rparr>]"
  "target_values scenario_two_alarms = [''T1'' \<mapsto> PInt 50, ''T2'' \<mapsto> PFloat (Finite 15)]"
  by (simp_all add: scenario_two_alarms_def scenario_b_simps)

subsection \<open>The full scan\<close>

lemma violates_step:
  "check_targets s (t # ts) =
     (case violates s t of
        Inl e \<Rightarrow> Inl e
      | Inr True \<Rightarrow> Inr (Some (InfoAlarm t (current_value s t)
                                (low (the (props s (attr_suffix t))))
                                (high (the (props s (attr_suffix t))))))
      | Inr False \<Rightarrow> check_targets s ts)"
  by (auto simp: violates_def Let_def split: option.splits sum.splits bool.splits)

lemma full_scan_check_targets:
  "full_scan s ts = Inr n \<Longrightarrow>
   \<exists>a. check_targets s ts = Inr a \<and> (a = None \<longleftrightarrow> n = 0)"
proof (induction ts arbitrary: n)
  case Nil
  then show ?case by simp
next
  case (Cons t ts)
  from Cons.prems obtain b m where b: "violates s t = Inr b" and m: "full_scan s ts = Inr m"
    and n: "n = (if b then Suc m else m)"
    by (auto split: sum.splits)
  from Cons.IH [OF m] obtain a where a: "check_targets s ts = Inr a" "a = None \<longleftrightarrow> m = 0"
    by blast
  show ?case
    using a b n by (cases b) (simp_all only: violates_step, simp_all)
qed

lemma full_scan_count:
  "full_scan s ts = Inr n \<Longrightarrow> (n = 0 \<longleftrightarrow> (\<forall>t \<in> set ts. violates s t \<noteq> Inr True))"
  by (induction ts arbitrary: n) (auto split: sum.splits if_splits)

lemma full_scan_total:
  "\<forall>t \<in> set ts. evaluated s t \<longrightarrow> is_number (current_value s t) \<Longrightarrow>
   \<exists>n. full_scan s ts = Inr n"
proof (induction ts)
  case Nil
  then show ?case by simp
next
  case (Cons t ts)
  then obtain n where n: "full_scan s ts = Inr n" by auto
  have "\<exists>b. violates s t = Inr b"
  proof (cases "evaluated s t")
    case False
    then show ?thesis
      by (auto simp: violates_def evaluated_def Let_def split: option.splits)
  next
    case True
    then have num: "is_number (current_value s t)" using Cons.prems by simp
    then show ?thesis
      using py_lt_number [OF num] py_gt_number [OF num]
      by (cases "current_value s t")
        (auto simp: violates_def Let_def split: option.splits sum.splits bool.splits)
  qed
  with n show ?case by auto
qed

subsection \<open>Targets outside the evaluation\<close>

lemma check_targets_disabled_value:
  "disabled s T \<Longrightarrow> check_targets (set_value s T v) ts = check_targets s ts"
  by (induction ts)
    (auto simp: disabled_def set_value_def current_value_def Let_def
      split: option.splits sum.splits bool.splits)

lemma check_targets_remove:
  "\<not> evaluated s T \<Longrightarrow> check_targets s (removeAll T ts) = check_targets s ts"
  by (induction ts)
    (auto simp: evaluated_def Let_def split: option.splits sum.splits bool.splits)

subsection \<open>Events and startup\<close>

lemma monitor_event_value:
  "target_values (snd (monitor_event s name val)) name = Some (extract_scalar val)"
proof (cases "update_summary (s\<lparr>target_values := (target_values s)(name \<mapsto> extract_scalar val)\<rparr>) None")
  case (Inl e)
  then show ?thesis by (simp add: monitor_event_def)
next
  case (Inr s2)
  from update_summary_frame [OF Inr] Inr show ?thesis by (simp add: monitor_event_def)
qed

lemma outcome_cong:
  "props s = props s' \<Longrightarrow> target_values s = target_values s' \<Longrightarrow>
   target_pvs_list s = target_pvs_list s' \<Longrightarrow> master_enable s = master_enable s' \<Longrightarrow>
   outcome (update_summary s ov) = outcome (update_summary s' ov)"
  using check_targets_cong [of s s' "target_pvs_list s'"]
  by (simp add: outcome_update_summary effective_master_def split: option.splits)

lemma monitor_event_outcome:
  "(case monitor_event s name val of
      (Some e, s') \<Rightarrow> Inl e
    | (None, s') \<Rightarrow> Inr (summary_status s')) =
   outcome (update_summary (set_value s name (extract_scalar val)) None)"
  by (cases "update_summary (set_value s name (extract_scalar val)) None")
    (simp_all add: monitor_event_def set_value_def outcome_def)

lemma startup_target_unfold:
  "\<exists>s3. startup_target s pv =
          (case update_summary s3 None of Inl e \<Rightarrow> (Some e, s3) | Inr s4 \<Rightarrow> (None, s4)) \<and>
     target_values s3 =
       (case pv_read pv of
          Inl e \<Rightarrow> target_values s
        | Inr val \<Rightarrow> (target_values s)(pv_name pv \<mapsto> extract_scalar val)) \<and>
     monitor_tasks s3 = monitor_tasks s @ [pv_name pv] \<and>
     props s3 = props s \<and> target_pvs_list s3 = target_pvs_list s \<and>
     master_enable s3 = master_enable s \<and>
     set (logger s) \<subseteq> set (logger s3) \<and>
     (\<forall>e. pv_read pv = Inl e \<longrightarrow> ErrorFailedInitialRead (pv_name pv) e \<in> set (logger s3))"
proof -
  define s1 where "s1 = logger_write (InfoSubscribing (pv_name pv)) s"
  define s2 where "s2 = (case pv_read pv of
                  Inl e \<Rightarrow> logger_write (ErrorFailedInitialRead (pv_name pv) e) s1
                | Inr val \<Rightarrow>
                    s1\<lparr>target_values := (target_values s1)(pv_name pv \<mapsto> extract_scalar val)\<rparr>)"
  define s3 where "s3 = s2\<lparr>monitor_tasks := monitor_tasks s2 @ [pv_name pv]\<rparr>"
  have st: "startup_target s pv =
      (case update_summary s3 None of Inl e \<Rightarrow> (Some e, s3) | Inr s4 \<Rightarrow> (None, s4))"
    unfolding startup_target_def Let_def s1_def s2_def s3_def by (rule refl)
  have f3: "target_values s3 =
       (case pv_read pv of
          Inl e \<Rightarrow> target_values s
        | Inr val \<Rightarrow> (target_values s)(pv_name pv \<mapsto> extract_scalar val))"
    "monitor_tasks s3 = monitor_tasks s @ [pv_name pv]"
    "props s3 = props s" "target_pvs_list s3 = target_pvs_list s"
    "master_enable s3 = master_enable s"
    "set (logger s) \<subseteq> set (logger s3)"
    "\<forall>e. pv_read pv = Inl e \<longrightarrow> ErrorFailedInitialRead (pv_name pv) e \<in> set (logger s3)"
    by (auto simp: s3_def s2_def s1_def split: sum.splits)
  from st f3 show ?thesis by blast
qed

lemma startup_target_snd:
  "\<exists>s3. snd (startup_target s pv) = s3 \<and>
     target_values s3 =
       (case pv_read pv of
          Inl e \<Rightarrow> target_values s
        | Inr val \<Rightarrow> (target_values s)(pv_name pv \<mapsto> extract_scalar val)) \<and>
     monitor_tasks s3 = monitor_tasks s @ [pv_name pv] \<and>
     props s3 = props s \<and> target_pvs_list s3 = target_pvs_list s \<and>
     master_enable s3 = master_enable s \<and>
     set (logger s) \<subseteq> set (logger s3) \<and>
     (\<forall>e. pv_read pv = Inl e \<longrightarrow> ErrorFailedInitialRead (pv_name pv) e \<in> set (logger s3))"
proof -
  from startup_target_unfold [of s pv] obtain s3 where
    st: "startup_target s pv =
      (case update_summary s3 None of Inl e \<Rightarrow> (Some e, s3) | Inr s4 \<Rightarrow> (None, s4))"
    and f3: "target_values s3 =
       (case pv_read pv of
          Inl e \<Rightarrow> target_values s
        | Inr val \<Rightarrow> (target_values s)(pv_name pv \<mapsto> extract_scalar val))"
    "monitor_tasks s3 = monitor_tasks s @ [pv_name pv]"
    "props s3 = props s" "target_pvs_list s3 = target_pvs_list s"
    "master_enable s3 = master_enable s"
    "set (logger s) \<subseteq> set (logger s3)"
    "\<forall>e. pv_read pv = Inl e \<longrightarrow> ErrorFailedInitialRead (pv_name pv) e \<in> set (logger s3)"
    by blast
  show ?thesis
  proof (cases "update_summary s3 None")
    case (Inl e)
    with st f3 show ?thesis by simp
  next
    case (Inr s4)
    from update_summary_frame [OF Inr] st Inr f3 show ?thesis by auto
  qed
qed







lemma startup_target_value:
  "target_values (snd (startup_target s \<lparr>pv_name = name, pv_read = Inr val\<rparr>)) name =
     Some (extract_scalar val)"
  using startup_target_snd [of s "\<lparr>pv_name = name, pv_read = Inr val\<rparr>"] by simp

lemma startup_target_outcome:
  "(case startup_target s \<lparr>pv_name = name, pv_read = Inr val\<rparr> of
      (Some e, s') \<Rightarrow> Inl e
    | (None, s') \<Rightarrow> Inr (summary_status s')) =
   outcome (update_summary (set_value s name (extract_scalar val)) None)"
proof -
  define s3 where "s3 = (logger_write (InfoSubscribing name) s)
      \<lparr>target_values := (target_values (logger_write (InfoSubscribing name) s))
          (name \<mapsto> extract_scalar val),
       monitor_tasks := monitor_tasks (logger_write (InfoSubscribing name) s) @ [name]\<rparr>"
  have st: "startup_target s \<lparr>pv_name = name, pv_read = Inr val\<rparr> =
      (case update_summary s3 None of Inl e \<Rightarrow> (Some e, s3) | Inr s4 \<Rightarrow> (None, s4))"
    by (cases "update_summary s3 None") (simp_all add: startup_target_def Let_def s3_def)
  have "outcome (update_summary s3 None) =
        outcome (update_summary (set_value s name (extract_scalar val)) None)"
    by (rule outcome_cong) (simp_all add: s3_def set_value_def)
  with st show ?thesis
    by (cases "update_summary s3 None") (simp_all add: outcome_def)
qed








text \<open>An exception of the batch call is logged and ends the startup.\<close>

lemma get_pvs_exception_returns:
  "master_enable_startup s (Inl e) =
     (None, logger_write (ErrorFailedGetPVs e)
              (logger_write (InfoConnecting (target_pvs_list s))
                 ((logger_write InfoStartingClient s)\<lparr>client_context := True\<rparr>)))"
  by (simp add: master_enable_startup_def Let_def)

subsection \<open>Scheduled recomputes\<close>

lemma run_tasks_count: "fst (run_tasks ds s) = length ds"
  by (induction ds arbitrary: s) (simp_all add: Let_def)

lemma generic_putter_scheduled:
  "scheduled (snd (generic_putter s n v)) = scheduled s @ [check_after_delay]"
  by (simp add: generic_putter_def)

lemma putter_writes_scheduled:
  "scheduled (putter_writes s ws) = scheduled s @ replicate (length ws) check_after_delay"
proof (induction ws arbitrary: s)
  case Nil
  then show ?case by simp
next
  case (Cons w ws)
  obtain n v where w: "w = (n, v)" by (cases w)
  show ?case
    unfolding w by (simp add: Cons.IH generic_putter_scheduled replicate_app_Cons_same)
qed

section \<open>The claims\<close>

text \<open>
  C1, as amended. When the master switch the recompute works with is not 0 (1 in
  particular), the status after a recompute that returns is 1 if and only if no target
  of the list whose enable flag is set and whose stored value is present has
  \<^verbatim>\<open>value < low\<close> or \<^verbatim>\<open>value > high\<close>, and 0 otherwise; the recompute returns
  on every snapshot whose evaluated values are numbers. When no stored value and no
  bound is NaN, that is: the status is 1 if and only if every such target satisfies
  \<open>low \<le> value \<le> high\<close>, bounds included.
\<close>

theorem recompute_equivalence:
  assumes "effective_master s ov \<noteq> 0"
  shows "(numeric_snapshot s \<longrightarrow> (\<exists>s'. update_summary s ov = Inr s')) \<and>
         (\<forall>s'. update_summary s ov = Inr s' \<longrightarrow>
            summary_status s' =
              (if \<forall>t \<in> set (target_pvs_list s). evaluated s t \<longrightarrow> target_passes s t
               then 1 else 0)) \<and>
         ((\<forall>t \<in> set (target_pvs_list s). nan_free s t) \<longrightarrow>
            (\<forall>s'. update_summary s ov = Inr s' \<longrightarrow>
               summary_status s' =
                 (if \<forall>t \<in> set (target_pvs_list s). evaluated s t \<longrightarrow> target_ok s t
                  then 1 else 0)))"
proof -
  have status: "summary_status s' =
          (if \<forall>t \<in> set (target_pvs_list s). evaluated s t \<longrightarrow> target_passes s t
           then 1 else 0)"
    if r: "update_summary s ov = Inr s'" for s'
  proof -
    from update_summary_status [OF assms r] obtain a where
      a: "check_targets s (target_pvs_list s) = Inr a"
      and st: "summary_status s' = (if a = None then 1 else 0)"
      by blast
    show ?thesis
    proof (cases a)
      case None
      with a have "\<forall>t \<in> set (target_pvs_list s). evaluated s t \<longrightarrow> target_passes s t"
        using check_targets_ok by blast
      with st None show ?thesis by simp
    next
      case (Some l)
      with a have "\<exists>t \<in> set (target_pvs_list s). evaluated s t \<and> \<not> target_passes s t"
        using check_targets_alarm by blast
      with st Some show ?thesis by auto
    qed
  qed
  have total: "\<exists>s'. update_summary s ov = Inr s'" if "numeric_snapshot s"
  proof -
    from that obtain a where "check_targets s (target_pvs_list s) = Inr a"
      using check_targets_total unfolding numeric_snapshot_def by blast
    then show ?thesis by (rule update_summary_returns)
  qed
  have inclusive: "summary_status s' =
          (if \<forall>t \<in> set (target_pvs_list s). evaluated s t \<longrightarrow> target_ok s t then 1 else 0)"
    if nf: "\<forall>t \<in> set (target_pvs_list s). nan_free s t"
      and r: "update_summary s ov = Inr s'" for s'
  proof -
    have "(\<forall>t \<in> set (target_pvs_list s). evaluated s t \<longrightarrow> target_passes s t) =
          (\<forall>t \<in> set (target_pvs_list s). evaluated s t \<longrightarrow> target_ok s t)"
      using nf target_passes_ok by blast
    with status [OF r] show ?thesis by simp
  qed
  from status total inclusive show ?thesis by blast
qed

theorem recompute_equivalence_witness:
  "effective_master scenario_b None \<noteq> 0 \<and> numeric_snapshot scenario_b \<and>
   nan_free scenario_b ''T1'' \<and> nan_free scenario_b ''T2'' \<and>
   \<not> target_ok scenario_b ''T2'' \<and>
   (\<exists>s'. update_summary scenario_b None = Inr s' \<and> summary_status s' = 0)"
proof -
  have n1: "nan_free scenario_b ''T1''" and n2: "nan_free scenario_b ''T2''"
    by (simp_all add: nan_free_def scenario_b_simps current_value_def)
  then have nf: "\<forall>t \<in> set (target_pvs_list scenario_b). nan_free scenario_b t"
    by (simp add: scenario_b_simps)
  have e: "evaluated scenario_b ''T2''" and c: "\<not> target_ok scenario_b ''T2''"
    by (simp_all add: scenario_b_simps evaluated_def target_ok_def current_value_def
        float_le_def)
  then have all: "\<not> (\<forall>t \<in> set (target_pvs_list scenario_b).
                evaluated scenario_b t \<longrightarrow> target_ok scenario_b t)"
    by (auto simp: scenario_b_simps)
  from recompute_equivalence [OF scenario_b_master] scenario_b_numeric nf all
  have "\<exists>s'. update_summary scenario_b None = Inr s' \<and> summary_status s' = 0"
    by auto
  with scenario_b_master scenario_b_numeric n1 n2 c show ?thesis by blast
qed

text \<open>
  The claim as stated fails on NaN: the subscription of the one target delivers NaN,
  which is stored; the target is enabled with bounds 0 and 100, \<^verbatim>\<open>nan < 0.0\<close> and
  \<^verbatim>\<open>nan > 100.0\<close> are both false, so the status is 1, while
  \<open>low \<le> value \<le> high\<close> does not hold.
\<close>

theorem nan_value_raises_no_alarm:
  "master_enable nan_feed = 1 \<and>
   target_pvs_list nan_feed = [''T1''] \<and>
   current_value nan_feed ''T1'' = PFloat NaN \<and>
   evaluated nan_feed ''T1'' \<and>
   \<not> target_ok nan_feed ''T1'' \<and>
   outcome (update_summary nan_feed None) = Inr 1"
proof -
  have f: "master_enable nan_feed = 1" "target_pvs_list nan_feed = [''T1'']"
    "summary_status nan_feed = 1"
    "props nan_feed = [''T1'' \<mapsto> \<lparr>enable = 1, low = Finite 0, high = Finite 100\<rparr>]"
    "target_values nan_feed = (target_values (create_monitor_ioc [''T1'']))
       (''T1'' \<mapsto> PFloat NaN)"
    by (simp_all add: nan_feed_def monitor_event_def update_summary_def create_monitor_ioc_def
        extract_scalar_def current_value_def)
  have v: "current_value nan_feed ''T1'' = PFloat NaN"
    by (simp add: current_value_def f)
  have "check_targets nan_feed [''T1''] = Inr None"
    by (simp add: f v)
  then have "outcome (update_summary nan_feed None) = Inr 1"
    by (simp add: outcome_update_summary effective_master_def f)
  moreover have "evaluated nan_feed ''T1''" "\<not> target_ok nan_feed ''T1''"
    by (simp_all add: evaluated_def target_ok_def f v float_le_def)
  ultimately show ?thesis using f v by simp
qed

text \<open>
  C2. With the master switch at 0 the recompute returns and leaves the status at 1,
  whatever the targets hold. The putter of the master switch recomputes with the written
  value: writing 0 gives status 1, and for every written value the outcome is that of a
  recompute in the state whose master switch already holds it, whatever the property
  held before.
\<close>

theorem master_override:
  "(master_enable s = 0 \<longrightarrow>
      (\<exists>s'. update_summary s None = Inr s' \<and> summary_status s' = 1)) \<and>
   (\<exists>s'. master_enable_putter s 0 = (Inr 0, s') \<and> summary_status s' = 1) \<and>
   (case master_enable_putter s v of
      (Inl e, s') \<Rightarrow> Inl e
    | (Inr w, s') \<Rightarrow> Inr (summary_status s')) =
   outcome (update_summary (s\<lparr>master_enable := v\<rparr>) None)"
proof (intro conjI impI)
  assume "master_enable s = 0"
  then have "effective_master s None = 0" by (simp add: effective_master_def)
  then show "\<exists>s'. update_summary s None = Inr s' \<and> summary_status s' = 1"
    by (rule update_summary_master_off)
next
  have "effective_master (logger_write (InfoMasterEnableChanged 0) s) (Some 0) = 0"
    by (simp add: effective_master_def)
  from update_summary_master_off [OF this]
  show "\<exists>s'. master_enable_putter s 0 = (Inr 0, s') \<and> summary_status s' = 1"
    by (auto simp: master_enable_putter_def)
next
  show "(case master_enable_putter s v of
           (Inl e, s') \<Rightarrow> Inl e
         | (Inr w, s') \<Rightarrow> Inr (summary_status s')) =
        outcome (update_summary (s\<lparr>master_enable := v\<rparr>) None)"
  proof (cases "v = 0")
    case True
    then show ?thesis
      by (simp add: master_enable_putter_def update_summary_def outcome_def Let_def)
  next
    case False
    show ?thesis
    proof (cases "check_targets s (target_pvs_list s)")
      case (Inl e)
      with False show ?thesis
        by (simp add: master_enable_putter_def update_summary_def outcome_def Let_def)
    next
      case (Inr a)
      with False show ?thesis
        by (cases a)
          (simp_all add: master_enable_putter_def update_summary_def outcome_def Let_def)
    qed
  qed
qed

theorem master_override_witness:
  "master_enable scenario_c = 0 \<and>
   (\<exists>s'. update_summary scenario_c None = Inr s' \<and> summary_status s' = 1) \<and>
   (\<exists>s'. master_enable_putter scenario_b 0 = (Inr 0, s') \<and> summary_status s' = 1)"
proof -
  have m: "master_enable scenario_c = 0" by (simp add: scenario_c_def)
  from master_override [of scenario_c 0] master_override [of scenario_b 0] m
  show ?thesis by blast
qed

text \<open>
  C3. A recompute that returns leaves the status at the value it computed (1 with the
  master switch at 0, otherwise 1 or 0 as the loop found no alarm or one); when that
  value is the one already published nothing is written, and when it differs exactly
  that one value is written.
\<close>

theorem write_suppression:
  assumes "update_summary s ov = Inr s'"
  shows "summary_status s' =
           (if effective_master s ov = 0 then 1
            else if check_targets s (target_pvs_list s) = Inr None then 1 else 0) \<and>
         (summary_status s' = summary_status s \<longrightarrow> published s' = published s) \<and>
         (summary_status s' \<noteq> summary_status s \<longrightarrow>
            published s' = published s @ [summary_status s'])"
  using assms
  by (auto simp: update_summary_def effective_master_def Let_def
      split: option.splits sum.splits if_splits)

theorem write_suppression_witness:
  "\<exists>s'. update_summary scenario_b None = Inr s' \<and> summary_status s' = 0 \<and>
        published s' = [0]"
proof -
  obtain s' where s': "update_summary scenario_b None = Inr s'"
    using update_summary_returns [of scenario_b _ None] scenario_b_check
    by (auto simp: scenario_b_simps)
  from write_suppression [OF s'] scenario_b_master scenario_b_check
  have "summary_status s' = 0 \<and> published s' = [0]"
    by (simp add: scenario_b_simps)
  with s' show ?thesis by blast
qed

text \<open>
  C4, as amended. The recompute returns, with the status at 0 or 1, on every snapshot
  in which the master switch it works with is 0 or every evaluated target holds a
  number. (It does not return on every snapshot: a string stored by the subscription
  path makes the comparison raise.)
\<close>

theorem recompute_total:
  assumes "effective_master s ov = 0 \<or> numeric_snapshot s"
  shows "\<exists>s'. update_summary s ov = Inr s' \<and> (summary_status s' = 0 \<or> summary_status s' = 1)"
proof (cases "effective_master s ov = 0")
  case True
  then show ?thesis using update_summary_master_off by blast
next
  case False
  with assms have "numeric_snapshot s" by simp
  then obtain a where "check_targets s (target_pvs_list s) = Inr a"
    using check_targets_total unfolding numeric_snapshot_def by blast
  then obtain s' where s': "update_summary s ov = Inr s'"
    using update_summary_returns by blast
  from update_summary_status [OF False s'] obtain b :: "log_entry option" where
    "summary_status s' = (if b = None then 1 else 0)" by blast
  then have "summary_status s' = 0 \<or> summary_status s' = 1"
    by (cases b) simp_all
  with s' show ?thesis by blast
qed

theorem recompute_total_witness:
  "numeric_snapshot scenario_b \<and>
   (\<exists>s'. update_summary scenario_b None = Inr s' \<and>
         (summary_status s' = 0 \<or> summary_status s' = 1))"
  using recompute_total [of scenario_b None] scenario_b_numeric by blast

text \<open>
  The claim as stated fails: the subscription of the one target delivers the string
  \<^verbatim>\<open>'abc'\<close>, which is stored as it is; the recompute of that event raises
  \<^verbatim>\<open>TypeError\<close>, and so does every later recompute of the state; the subscription
  loop logs the exception and ends, so the response that follows is not read.
\<close>

theorem recompute_not_total:
  "fst (monitor_event (create_monitor_ioc [''T1'']) ''T1'' (PStr ''abc'')) = Some TypeError \<and>
   update_summary string_feed None = Inl TypeError \<and>
   fst (monitor_loop (create_monitor_ioc [''T1'']) ''T1''
          [Inr (PStr ''abc''), Inr (PFloat (Finite 5))]) = False"
  by (simp add: string_feed_def monitor_loop_def monitor_event_def update_summary_def
      create_monitor_ioc_def extract_scalar_def current_value_def logger_write_def)




text \<open>
  C6, as amended. Every write to an enable, low or high property hands one more
  \<^verbatim>\<open>check_after\<close> task, delayed by 0.01 seconds, to the event loop, and every
  pending task calls the recompute once: after a sequence of writes the number of
  recomputes is the number of tasks that were pending before plus the number of writes.
\<close>

theorem one_recompute_per_write:
  "fst (generic_putter s n v) = v \<and>
   scheduled (snd (generic_putter s n v)) = scheduled s @ [check_after_delay] \<and>
   check_after_delay = 1 / 100 \<and>
   scheduled (putter_writes s ws) = scheduled s @ replicate (length ws) check_after_delay \<and>
   fst (run_scheduled (putter_writes s ws)) = length (scheduled s) + length ws"
  by (simp add: generic_putter_def check_after_delay_def putter_writes_scheduled
      run_scheduled_def run_tasks_count)

text \<open>
  The claim as stated fails: a write to LOW and a write to HIGH of the same target,
  both pending at once, lead to two recomputes.
\<close>

theorem writes_not_coalesced:
  "scheduled (putter_writes (create_monitor_ioc [''T1''])
       [(''T1:LOW'', PFloat (Finite 1)), (''T1:HIGH'', PFloat (Finite 2))]) = [1 / 100, 1 / 100] \<and>
   fst (run_scheduled (putter_writes (create_monitor_ioc [''T1''])
       [(''T1:LOW'', PFloat (Finite 1)), (''T1:HIGH'', PFloat (Finite 2))])) = 2"
proof -
  let ?s = "putter_writes (create_monitor_ioc [''T1''])
       [(''T1:LOW'', PFloat (Finite 1)), (''T1:HIGH'', PFloat (Finite 2))]"
  have a: "scheduled ?s = [1 / 100, 1 / 100]"
    by (simp add: generic_putter_def create_monitor_ioc_def check_after_delay_def)
  have "fst (run_scheduled ?s) = length (scheduled ?s)"
    unfolding run_scheduled_def by (rule run_tasks_count)
  with a show ?thesis by simp
qed

text \<open>
  C7, as amended. The extracted value is the first element of a sequence that is not
  empty, and the payload itself in every other case: an empty sequence, a string, a
  number, \<^verbatim>\<open>None\<close>. On a subscription response and on a successful initial read
  the extracted value is stored for the target, and the outcome of the recompute that
  follows is the outcome of a recompute in the state that holds the stored value.
\<close>

theorem scalar_extraction:
  "extract_scalar (PSeq (x # xs)) = x \<and>
   extract_scalar (PSeq []) = PSeq [] \<and>
   extract_scalar (PStr str) = PStr str \<and>
   extract_scalar (PInt i) = PInt i \<and>
   extract_scalar (PFloat r) = PFloat r \<and>
   extract_scalar PNone = PNone \<and>
   target_values (snd (monitor_event s name val)) name = Some (extract_scalar val) \<and>
   (case monitor_event s name val of
      (Some e, s') \<Rightarrow> Inl e
    | (None, s') \<Rightarrow> Inr (summary_status s')) =
     outcome (update_summary (set_value s name (extract_scalar val)) None) \<and>
   target_values (snd (startup_target s \<lparr>pv_name = name, pv_read = Inr val\<rparr>)) name =
     Some (extract_scalar val) \<and>
   (case startup_target s \<lparr>pv_name = name, pv_read = Inr val\<rparr> of
      (Some e, s') \<Rightarrow> Inl e
    | (None, s') \<Rightarrow> Inr (summary_status s')) =
     outcome (update_summary (set_value s name (extract_scalar val)) None)"
  using monitor_event_value [of s name val] monitor_event_outcome [of s name val]
    startup_target_value [of s name val] startup_target_outcome [of s name val]
  by (simp add: extract_scalar_def)

text \<open>
  The claim as stated fails on the empty sequence: it is a sequence, it has no first
  element, and what is stored is the sequence itself.
\<close>

theorem empty_sequence_has_no_first_element:
  "has_iter (PSeq []) \<and> \<not> is_str (PSeq []) \<and>
   getitem0 (PSeq []) \<noteq> Inr (extract_scalar (PSeq [])) \<and>
   extract_scalar (PSeq []) = PSeq []"
  by (simp add: extract_scalar_def)

text \<open>
  C8. With the master switch not 0: whenever the full scan of all targets yields a
  status, the recompute with its break at the first violating target yields the same
  one, and that status is 0 exactly when some target violates its bounds and 1 exactly
  when none does, however many violate. The full scan yields a status on every snapshot
  whose evaluated values are numbers.
\<close>

theorem short_circuit_refines_full_scan:
  assumes "effective_master s ov \<noteq> 0"
  shows "(\<forall>b. full_scan_status s = Inr b \<longrightarrow>
            outcome (update_summary s ov) = Inr b \<and>
            (b = 0 \<longleftrightarrow> (\<exists>t \<in> set (target_pvs_list s). violates s t = Inr True)) \<and>
            (b = 1 \<longleftrightarrow> (\<forall>t \<in> set (target_pvs_list s). violates s t \<noteq> Inr True))) \<and>
         (numeric_snapshot s \<longrightarrow> (\<exists>b. full_scan_status s = Inr b))"
proof (intro conjI allI impI)
  fix b
  assume fs: "full_scan_status s = Inr b"
  then obtain n where n: "full_scan s (target_pvs_list s) = Inr n"
    and b: "b = (if n = 0 then 1 else 0)"
    by (auto simp: full_scan_status_def split: sum.splits)
  from full_scan_check_targets [OF n] obtain a where
    a: "check_targets s (target_pvs_list s) = Inr a" "a = None \<longleftrightarrow> n = 0"
    by blast
  show "outcome (update_summary s ov) = Inr b"
    using assms a b by (simp add: outcome_update_summary)
  show "b = 0 \<longleftrightarrow> (\<exists>t \<in> set (target_pvs_list s). violates s t = Inr True)"
    using full_scan_count [OF n] b by auto
  show "b = 1 \<longleftrightarrow> (\<forall>t \<in> set (target_pvs_list s). violates s t \<noteq> Inr True)"
    using full_scan_count [OF n] b by auto
next
  assume "numeric_snapshot s"
  then obtain n where "full_scan s (target_pvs_list s) = Inr n"
    using full_scan_total unfolding numeric_snapshot_def by blast
  then show "\<exists>b. full_scan_status s = Inr b"
    by (simp add: full_scan_status_def)
qed

theorem short_circuit_refines_full_scan_witness:
  "effective_master scenario_two_alarms None \<noteq> 0 \<and>
   full_scan scenario_two_alarms (target_pvs_list scenario_two_alarms) = Inr 2 \<and>
   full_scan_status scenario_two_alarms = Inr 0 \<and>
   outcome (update_summary scenario_two_alarms None) = Inr 0"
proof -
  have m: "effective_master scenario_two_alarms None \<noteq> 0"
    by (simp add: effective_master_def two_alarms_simps)
  have f: "full_scan scenario_two_alarms (target_pvs_list scenario_two_alarms) = Inr 2"
    by (simp add: two_alarms_simps violates_def current_value_def)
  then have fs: "full_scan_status scenario_two_alarms = Inr 0"
    by (simp add: full_scan_status_def)
  from short_circuit_refines_full_scan [OF m] fs m f show ?thesis by blast
qed

text \<open>
  C9. For a disabled target the outcome of the recompute is the same for any two values
  stored for it, in bounds or out of bounds; and a target that is disabled or holds no
  value can be taken off the list without changing the outcome.
\<close>

theorem excluded_target_no_influence:
  "(disabled s T \<longrightarrow>
      outcome (update_summary (set_value s T v) ov) =
      outcome (update_summary (set_value s T v') ov)) \<and>
   (disabled s T \<or> current_value s T = PNone \<longrightarrow>
      outcome (update_summary (s\<lparr>target_pvs_list := removeAll T (target_pvs_list s)\<rparr>) ov) =
      outcome (update_summary s ov))"
proof (intro conjI impI)
  assume d: "disabled s T"
  have "check_targets (set_value s T v) (target_pvs_list s) =
        check_targets (set_value s T v') (target_pvs_list s)"
    using d by (simp add: check_targets_disabled_value)
  then show "outcome (update_summary (set_value s T v) ov) =
      outcome (update_summary (set_value s T v') ov)"
    by (simp add: outcome_update_summary)
next
  assume "disabled s T \<or> current_value s T = PNone"
  then have ne: "\<not> evaluated s T"
    by (auto simp: disabled_def evaluated_def split: option.splits)
  have "check_targets (s\<lparr>target_pvs_list := removeAll T (target_pvs_list s)\<rparr>)
          (removeAll T (target_pvs_list s)) =
        check_targets s (removeAll T (target_pvs_list s))"
    by (rule check_targets_cong) simp_all
  also have "\<dots> = check_targets s (target_pvs_list s)"
    using ne by (rule check_targets_remove)
  finally show "outcome (update_summary (s\<lparr>target_pvs_list := removeAll T (target_pvs_list s)\<rparr>) ov) =
      outcome (update_summary s ov)"
    by (simp add: outcome_update_summary)
qed

theorem excluded_target_no_influence_witness:
  "disabled scenario_d ''T2'' \<and>
   outcome (update_summary (set_value scenario_d ''T2'' (PFloat (Finite 15))) None) = Inr 1 \<and>
   outcome (update_summary (set_value scenario_d ''T2'' (PFloat (Finite 5))) None) = Inr 1 \<and>
   outcome (update_summary
     (scenario_d\<lparr>target_pvs_list := removeAll ''T2'' (target_pvs_list scenario_d)\<rparr>) None) =
     Inr 1"
proof -
  have "check_targets scenario_d [''T1'', ''T2''] = Inr None"
    by (simp add: scenario_d_simps current_value_def)
  then have e: "outcome (update_summary scenario_d None) = Inr 1"
    by (simp add: outcome_update_summary scenario_d_simps effective_master_def)
  have d: "disabled scenario_d ''T2''"
    by (simp add: disabled_def scenario_d_simps)
  have "check_targets (set_value scenario_d ''T2'' (PFloat (Finite 5))) [''T1'', ''T2''] = Inr None"
    by (simp add: set_value_def scenario_d_simps current_value_def)
  then have "outcome (update_summary (set_value scenario_d ''T2'' (PFloat (Finite 5))) None) = Inr 1"
    by (simp add: outcome_update_summary scenario_d_simps effective_master_def)
  with excluded_target_no_influence
         [where s = scenario_d and T = "''T2''" and v = "PFloat (Finite 15)" and v' = "PFloat (Finite 5)"
            and ov = None] d e
  show ?thesis by simp
qed

text \<open>
  C10. For an empty sequence the indexing raises \<^verbatim>\<open>IndexError\<close>, the fallback
  keeps the payload, and both the subscription path and the startup path store the empty
  sequence itself as the value of the target; the stored value is then not a number.
\<close>

theorem empty_sequence_stored:
  "getitem0 (PSeq []) = Inl IndexError \<and>
   extract_scalar (PSeq []) = PSeq [] \<and>
   target_values (snd (monitor_event s name (PSeq []))) name = Some (PSeq []) \<and>
   target_values (snd (startup_target s \<lparr>pv_name = name, pv_read = Inr (PSeq [])\<rparr>)) name =
     Some (PSeq []) \<and>
   \<not> is_number (PSeq [])"
  using monitor_event_value [of s name "PSeq []"] startup_target_value [of s name "PSeq []"]
  by (simp add: extract_scalar_def)

end
